theory Spec2Isabelle
  imports Complex_Main
begin

section \<open>PSD ingestion and time-varying PSD selection (pycbc/psd/read.py)\<close>

text \<open>
  A shallow embedding of \<^verbatim>\<open>from_numpy_arrays\<close> and of the class
  \<^verbatim>\<open>PrecomputedTimeVaryingPSD\<close>. Python floats are rendered as real numbers: every
  comparison, floor and index computation of the source is exact in the embedding, and
  rounding, NaN and the logarithm of a sample that is not positive are outside of it.
  Exceptions are values of the type \<open>error\<close>; a function that can raise returns
  \<open>error + 'a\<close>, and the warning of line 71 is returned beside the series.
\<close>

subsection \<open>Errors, values and series\<close>

datatype error =
    IndexError
  | ArithmeticError
  | LowCutoffError real
  | InterpError
  | ArrayError
  | SeriesError
  | SegmentError
  | EmptyStoreError
  | RangeError real real
  | KthError
  | NoIntersectionError
  | TruncationError

text \<open>
  \<open>IndexError\<close> is Python's; \<open>ArithmeticError\<close> stands for a float division by zero.
  All the others are \<^verbatim>\<open>ValueError\<close>s, told apart by where they are raised:
  \<open>LowCutoffError\<close> at line 54 (its message holds the cutoff), \<open>RangeError\<close> at line 227
  (its message holds the store's range), \<open>NoIntersectionError\<close> at line 247,
  \<open>InterpError\<close> in scipy's \<^verbatim>\<open>interp1d\<close>, \<open>ArrayError\<close> in numpy's array creation
  and assignment, \<open>KthError\<close> in \<^verbatim>\<open>numpy.argpartition\<close>, \<open>EmptyStoreError\<close> in numpy's
  reduction of an empty array, \<open>SeriesError\<close> in the constructor of
  \<^verbatim>\<open>FrequencySeries\<close> and \<open>SegmentError\<close> in \<^verbatim>\<open>ligo.segments\<close>.
  \<open>TruncationError\<close> is whatever \<^verbatim>\<open>pycbc.psd.inverse_spectrum_truncation\<close> raises.
\<close>

datatype warning = ExceedsAvailable real real

datatype npfloat = Finite real | PosInf

record 'a FrequencySeries =
  data :: "'a list"
  delta_f :: real

definition FrequencySeries_new :: "'a list \<Rightarrow> real \<Rightarrow> error + 'a FrequencySeries" where
  \<comment> \<open>The constructor of pycbc.types.FrequencySeries, which is not part of the two source
      files: it refuses an empty array and a spacing that is not positive.\<close>
  "FrequencySeries_new initial_array df =
     (if length initial_array < 1 then Inl SeriesError
      else if \<not> df > 0 then Inl SeriesError
      else Inr \<lparr>data = initial_array, delta_f = df\<rparr>)"

subsection \<open>Python and numpy primitives\<close>

definition py_int :: "real \<Rightarrow> int" where
  \<comment> \<open>\<^verbatim>\<open>int(x)\<close> of a float truncates towards zero.\<close>
  "py_int x = (if 0 \<le> x then \<lfloor>x\<rfloor> else \<lceil>x\<rceil>)"

definition py_index :: "'a list \<Rightarrow> int \<Rightarrow> error + 'a" where
  \<comment> \<open>\<^verbatim>\<open>xs[i]\<close>: a negative index counts from the end, an index out of range raises.\<close>
  "py_index xs i =
     (if 0 \<le> i \<and> i < int (length xs) then Inr (xs ! nat i)
      else if i < 0 \<and> - int (length xs) \<le> i then Inr (xs ! nat (int (length xs) + i))
      else Inl IndexError)"

definition py_slice_start :: "nat \<Rightarrow> int \<Rightarrow> nat" where
  \<comment> \<open>The position where \<^verbatim>\<open>xs[i:]\<close> starts (and where \<^verbatim>\<open>xs[:i]\<close> stops) in a
      sequence of length \<open>n\<close>: a negative bound counts from the end, and both are clipped.\<close>
  "py_slice_start n i = (if i < 0 then nat (max 0 (int n + i)) else min n (nat i))"

definition py_slice_from :: "'a list \<Rightarrow> int \<Rightarrow> 'a list" where
  \<comment> \<open>\<^verbatim>\<open>xs[i:]\<close>\<close>
  "py_slice_from xs i = drop (py_slice_start (length xs) i) xs"

definition searchsorted :: "real list \<Rightarrow> real \<Rightarrow> nat" where
  \<comment> \<open>\<^verbatim>\<open>numpy.searchsorted(a, v)\<close> (side left) on an ascending array: the first
      position whose element is not below \<open>v\<close>.\<close>
  "searchsorted a v = length (takeWhile (\<lambda>x. x < v) a)"

definition np_assign_from :: "'a list \<Rightarrow> int \<Rightarrow> 'a list \<Rightarrow> error + 'a list" where
  \<comment> \<open>\<^verbatim>\<open>psd[k:] = rhs\<close>: the sizes must agree, or the right side has one element,
      which is then broadcast.\<close>
  "np_assign_from psd k rhs =
     (let start = py_slice_start (length psd) k; m = length psd - start
      in if length rhs = m then Inr (take start psd @ rhs)
         else if length rhs = 1 then Inr (take start psd @ replicate m (hd rhs))
         else Inl ArrayError)"

definition np_fill_upto :: "'a list \<Rightarrow> int \<Rightarrow> 'a \<Rightarrow> 'a list" where
  \<comment> \<open>\<^verbatim>\<open>psd[0:k] = v\<close> with a scalar \<open>v\<close>\<close>
  "np_fill_upto psd k v =
     (let stop = py_slice_start (length psd) k in replicate stop v @ drop stop psd)"

subsection \<open>The interpolator of scipy\<close>

fun np_interp :: "(real \<times> real) list \<Rightarrow> real \<Rightarrow> real" where
  "np_interp [] q = 0"
| "np_interp [(x0, y0)] q = y0"
| "np_interp ((x0, y0) # (x1, y1) # ps) q =
     (if q < x1 then (y1 - y0) / (x1 - x0) * (q - x0) + y0
      else np_interp ((x1, y1) # ps) q)"

definition interp1d :: "real list \<Rightarrow> real list \<Rightarrow> real \<Rightarrow> real \<Rightarrow> real \<Rightarrow> real" where
  \<comment> \<open>\<^verbatim>\<open>scipy.interpolate.interp1d(x, y, fill_value=(fill_below, fill_above), bounds_error=False)\<close>
      called at \<open>q\<close>: linear between the nodes, which it sorts by \<open>x\<close> first; a query
      outside of them gets the fill value of its side.\<close>
  "interp1d x y fill_below fill_above q =
     (let nodes = sort_key fst (zip x y)
      in if q < fst (hd nodes) then fill_below
         else if fst (last nodes) < q then fill_above
         else np_interp nodes q)"

subsection \<open>The resampler\<close>

definition trim_data ::
  "real list \<Rightarrow> real list \<Rightarrow> real \<Rightarrow> real \<Rightarrow> error + (real list \<times> real list)" where
  \<comment> \<open>Lines 57 to 68, reached with a non-empty \<open>freq_data\<close> and a spacing other than 0.\<close>
  "trim_data freq_data noise_data df low_freq_cutoff =
     (let kmin = py_int (low_freq_cutoff / df);
          flow = real_of_int kmin * df;
          data_start = (if hd freq_data = low_freq_cutoff then 0
                        else int (searchsorted freq_data flow) - 1)
      in case py_index freq_data (data_start + 1) of
           Inl e \<Rightarrow> Inl e
         | Inr f \<Rightarrow>
             (let data_start' = (if f = low_freq_cutoff then data_start + 1 else data_start)
              in Inr (py_slice_from freq_data data_start',
                      py_slice_from noise_data data_start')))"

definition interpolated_bins :: "real list \<Rightarrow> real list \<Rightarrow> int \<Rightarrow> int \<Rightarrow> real \<Rightarrow> real list" where
  \<comment> \<open>Lines 78 to 86: \<^verbatim>\<open>numpy.exp(psd_interp(vals))\<close>, one value for each bin of
      \<^verbatim>\<open>numpy.arange(kmin, length)\<close>. The logarithm of the frequency 0 is \<open>-\<infinity>\<close> in
      numpy, below every node, so that bin gets the fill value of the lower side.\<close>
  "interpolated_bins freq_data noise_data kmin len df =
     (let flog = map ln freq_data;
          slog = map ln noise_data;
          psd_interp = (\<lambda>f. if f = 0 then hd slog
                            else interp1d flog slog (hd slog) (last slog) (ln f))
      in map (\<lambda>k. exp (psd_interp (real_of_int k * df))) [kmin..len - 1])"

definition resample_trimmed ::
  "real list \<Rightarrow> real list \<Rightarrow> int \<Rightarrow> real \<Rightarrow> real \<Rightarrow>
     error + (warning list \<times> real FrequencySeries)" where
  \<comment> \<open>Lines 70 to 88, on the trimmed arrays, of which the first is never empty: the
      warning and the shorter length when the data end too early, then the zeros and the
      interpolated bins from \<open>kmin\<close> on.\<close>
  "resample_trimmed freq noise len df low_freq_cutoff =
     (let kmin = py_int (low_freq_cutoff / df);
          shrink = (real_of_int (len - 1) * df > last freq);
          warnings = (if shrink
                      then [ExceedsAvailable (real_of_int (len - 1) * df) (last freq)]
                      else []);
          len' = (if shrink then py_int (last freq / df + 1) else len)
      in if length freq \<noteq> length noise then Inl InterpError
         else if len' < 0 then Inl ArrayError
         else
           (case np_assign_from (replicate (nat len') 0) kmin
                   (interpolated_bins freq noise kmin len' df) of
              Inl e \<Rightarrow> Inl e
            | Inr psd \<Rightarrow>
                (case FrequencySeries_new psd df of
                   Inl e \<Rightarrow> Inl e
                 | Inr series \<Rightarrow> Inr (warnings, series))))"

definition from_numpy_arrays ::
  "real list \<Rightarrow> real list \<Rightarrow> int \<Rightarrow> real \<Rightarrow> real \<Rightarrow>
     error + (warning list \<times> real FrequencySeries)" where
  "from_numpy_arrays freq_data noise_data len df low_freq_cutoff =
     (case py_index freq_data 0 of
        Inl e \<Rightarrow> Inl e
      | Inr f0 \<Rightarrow>
          if f0 > low_freq_cutoff then Inl (LowCutoffError low_freq_cutoff)
          else if df = 0 then Inl ArithmeticError
          else
            (case trim_data freq_data noise_data df low_freq_cutoff of
               Inl e \<Rightarrow> Inl e
             | Inr (freq, noise) \<Rightarrow> resample_trimmed freq noise len df low_freq_cutoff))"

definition index_in_range :: "real list \<Rightarrow> real \<Rightarrow> real \<Rightarrow> bool" where
  \<comment> \<open>The position that line 64 reads lies inside of \<open>freq_data\<close>: with the cutoff at the
      first sample there is a second one, and otherwise \<open>flow\<close> is not above the last.\<close>
  "index_in_range freq_data df low_freq_cutoff =
     (if hd freq_data = low_freq_cutoff then 2 \<le> length freq_data
      else real_of_int (py_int (low_freq_cutoff / df)) * df \<le> last freq_data)"

subsection \<open>Time segments (ligo.segments)\<close>

type_synonym seg = "real \<times> real"

definition segment :: "real \<Rightarrow> real \<Rightarrow> seg" where
  \<comment> \<open>\<^verbatim>\<open>segments.segment(a, b)\<close> orders its two bounds.\<close>
  "segment a b = (if a \<le> b then (a, b) else (b, a))"

definition intersects :: "seg \<Rightarrow> seg \<Rightarrow> bool" where
  \<comment> \<open>\<^verbatim>\<open>self.intersects(other)\<close>\<close>
  "intersects self other = (snd self > fst other \<and> fst self < snd other)"

definition seg_and :: "seg \<Rightarrow> seg \<Rightarrow> error + seg" where
  \<comment> \<open>\<^verbatim>\<open>self & other\<close> raises when the two do not intersect.\<close>
  "seg_and self other =
     (if snd self \<le> fst other \<or> fst self \<ge> snd other then Inl SegmentError
      else Inr (max (fst self) (fst other), min (snd self) (snd other)))"

definition seg_abs :: "seg \<Rightarrow> real" where
  \<comment> \<open>\<^verbatim>\<open>abs(self)\<close>\<close>
  "seg_abs self = snd self - fst self"

subsection \<open>The selector\<close>

record PrecomputedTimeVaryingPSD =
  f_low :: "real option"
  target_length :: "int option"
  self_delta_f :: real
  sample_rate :: real
  psd_inverse_length :: "real option"
  invpsd_trunc_method :: "string option"
  start_times :: "real list"
  end_times :: "real list"
  file_f_low :: real
  psd_begin :: real
  psd_end :: real

text \<open>
  The field \<open>target_length\<close> is \<^verbatim>\<open>self.length\<close>, \<open>psd_begin\<close> and \<open>psd_end\<close> are
  \<^verbatim>\<open>self.begin\<close> and \<^verbatim>\<open>self.end\<close>. What the class calls outside of the two source
  files is a parameter of the embedding: the first two entries of
  \<^verbatim>\<open>numpy.argpartition(a, 2)\<close>, whose order numpy leaves open, the reader of the store
  \<^verbatim>\<open>load_frequencyseries\<close> at an index, and the two functions of \<^verbatim>\<open>pycbc.psd\<close>.
\<close>

record collaborators =
  argpartition2 :: "real list \<Rightarrow> nat \<times> nat"
  load_frequencyseries :: "nat \<Rightarrow> npfloat FrequencySeries"
  interpolate :: "npfloat FrequencySeries \<Rightarrow> real \<Rightarrow> npfloat FrequencySeries"
  inverse_spectrum_truncation ::
    "npfloat FrequencySeries \<Rightarrow> int \<Rightarrow> real option \<Rightarrow> string option \<Rightarrow>
       npfloat FrequencySeries option"

definition argpartition2_sorted :: "real list \<Rightarrow> nat \<times> nat" where
  \<comment> \<open>One result numpy may give: the positions of the two smallest entries, ascending.\<close>
  "argpartition2_sorted a =
     (let p = sort_key (\<lambda>i. a ! i) [0..<length a] in (p ! 0, p ! 1))"

definition PrecomputedTimeVaryingPSD_init ::
  "real option \<Rightarrow> int option \<Rightarrow> real \<Rightarrow> real \<Rightarrow> real option \<Rightarrow> string option \<Rightarrow>
     real list \<Rightarrow> real list \<Rightarrow> real \<Rightarrow> error + PrecomputedTimeVaryingPSD" where
  \<comment> \<open>\<^verbatim>\<open>__init__\<close>, with the three values read from the file as arguments.\<close>
  "PrecomputedTimeVaryingPSD_init low_frequency_cutoff len df rate inverse_length trunc_method
       starts ends file_low =
     (if starts = [] then Inl EmptyStoreError
      else if ends = [] then Inl EmptyStoreError
      else Inr \<lparr>f_low = low_frequency_cutoff, target_length = len, self_delta_f = df,
                sample_rate = rate, psd_inverse_length = inverse_length,
                invpsd_trunc_method = trunc_method, start_times = starts, end_times = ends,
                file_f_low = file_low, psd_begin = Min (set starts),
                psd_end = Max (set ends)\<rparr>)"

definition overlap_duration :: "seg \<Rightarrow> seg \<Rightarrow> real" where
  \<comment> \<open>The overlap of a candidate with the requested segment, as the claims speak of it:
      the length of the intersection, and zero for a candidate that does not intersect.\<close>
  "overlap_duration inp_seg candidate =
     (if intersects inp_seg candidate
      then min (snd candidate) (snd inp_seg) - max (fst candidate) (fst inp_seg)
      else 0)"

definition resample_step ::
  "collaborators \<Rightarrow> npfloat FrequencySeries \<Rightarrow> real option \<Rightarrow> npfloat FrequencySeries" where
  \<comment> \<open>Lines 261 and 262.\<close>
  "resample_step env psd df =
     (case df of
        None \<Rightarrow> psd
      | Some d \<Rightarrow> if delta_f psd \<noteq> d then interpolate env psd d else psd)"

definition reconcile_length ::
  "int option \<Rightarrow> npfloat FrequencySeries \<Rightarrow> error + npfloat FrequencySeries" where
  \<comment> \<open>Lines 263 to 271.\<close>
  "reconcile_length target psd =
     (case target of
        None \<Rightarrow> Inr psd
      | Some L \<Rightarrow>
          if L \<noteq> int (length (data psd)) then
            (if L < 0 then Inl ArrayError
             else
               (case FrequencySeries_new (replicate (nat L) (Finite 0)) (delta_f psd) of
                  Inl e \<Rightarrow> Inl e
                | Inr psd2 \<Rightarrow>
                    if L > int (length (data psd)) then
                      Inr (psd2\<lparr>data := data psd @
                                 drop (length (data psd)) (replicate (nat L) PosInf)\<rparr>)
                    else Inr (psd2\<lparr>data := take (nat L) (data psd)\<rparr>)))
          else Inr psd)"

definition mask_low ::
  "PrecomputedTimeVaryingPSD \<Rightarrow> npfloat FrequencySeries \<Rightarrow> error + npfloat FrequencySeries" where
  \<comment> \<open>Lines 272 to 275.\<close>
  "mask_low self psd =
     (case f_low self of
        None \<Rightarrow> Inr psd
      | Some fl \<Rightarrow>
          if fl < file_f_low self then
            (if delta_f psd = 0 then Inl ArithmeticError
             else Inr (psd\<lparr>data := np_fill_upto (data psd)
                                   (py_int (file_f_low self / delta_f psd)) PosInf\<rparr>))
          else Inr psd)"

definition get_psd ::
  "collaborators \<Rightarrow> PrecomputedTimeVaryingPSD \<Rightarrow> nat \<Rightarrow> real option \<Rightarrow>
     error + npfloat FrequencySeries" where
  "get_psd env self index df =
     (case reconcile_length (target_length self)
             (resample_step env (load_frequencyseries env index) df) of
        Inl e \<Rightarrow> Inl e
      | Inr psd \<Rightarrow> mask_low self psd)"

definition consider_nearest ::
  "collaborators \<Rightarrow> PrecomputedTimeVaryingPSD \<Rightarrow> seg \<Rightarrow> real option \<Rightarrow> seg \<Rightarrow> nat \<Rightarrow>
     error + (real \<times> npfloat FrequencySeries option)" where
  \<comment> \<open>Lines 235 to 238: the overlap and the best PSD after the first candidate.\<close>
  "consider_nearest env self inp_seg df nearest idx =
     (if intersects inp_seg nearest then
        (case seg_and nearest inp_seg of
           Inl e \<Rightarrow> Inl e
         | Inr common \<Rightarrow>
             (case get_psd env self idx df of
                Inl e \<Rightarrow> Inl e
              | Inr psd \<Rightarrow> Inr (seg_abs common, Some psd)))
      else Inr (0, None))"

definition consider_next ::
  "collaborators \<Rightarrow> PrecomputedTimeVaryingPSD \<Rightarrow> seg \<Rightarrow> real option \<Rightarrow> seg \<Rightarrow> nat \<Rightarrow>
     real \<times> npfloat FrequencySeries option \<Rightarrow>
     error + (real \<times> npfloat FrequencySeries option)" where
  \<comment> \<open>Lines 240 to 243: the second candidate displaces the first on a greater overlap.\<close>
  "consider_next env self inp_seg df next_nearest idx best =
     (if intersects inp_seg next_nearest then
        (case seg_and next_nearest inp_seg of
           Inl e \<Rightarrow> Inl e
         | Inr common \<Rightarrow>
             if fst best < seg_abs common then
               (case get_psd env self idx df of
                  Inl e \<Rightarrow> Inl e
                | Inr psd \<Rightarrow> Inr (seg_abs common, Some psd))
             else Inr best)
      else Inr best)"

definition truncate_step ::
  "collaborators \<Rightarrow> PrecomputedTimeVaryingPSD \<Rightarrow> npfloat FrequencySeries \<Rightarrow>
     error + npfloat FrequencySeries" where
  \<comment> \<open>Lines 249 to 256: \<^verbatim>\<open>None\<close> and 0 are false in Python.\<close>
  "truncate_step env self best_psd =
     (case psd_inverse_length self of
        None \<Rightarrow> Inr best_psd
      | Some l \<Rightarrow>
          if l = 0 then Inr best_psd
          else
            (case inverse_spectrum_truncation env best_psd (py_int (l * sample_rate self))
                    (f_low self) (invpsd_trunc_method self) of
               None \<Rightarrow> Inl TruncationError
             | Some psd \<Rightarrow> Inr psd))"

definition assosiate_psd_to_inspiral_segment ::
  "collaborators \<Rightarrow> PrecomputedTimeVaryingPSD \<Rightarrow> seg \<Rightarrow> real option \<Rightarrow>
     error + npfloat FrequencySeries" where
  "assosiate_psd_to_inspiral_segment env self inp_seg df =
     (if fst inp_seg > psd_end self \<or> snd inp_seg < psd_begin self
      then Inl (RangeError (psd_begin self) (psd_end self))
      else if length (start_times self) < 3 then Inl KthError
      else
        (let sidx = argpartition2 env (map (\<lambda>t. \<bar>t - fst inp_seg\<bar>) (start_times self))
         in if \<not> (fst sidx < length (start_times self) \<and> fst sidx < length (end_times self) \<and>
                   snd sidx < length (start_times self) \<and> snd sidx < length (end_times self))
            then Inl IndexError
            else
              (let nearest = segment (start_times self ! fst sidx) (end_times self ! fst sidx);
                   next_nearest = segment (start_times self ! snd sidx) (end_times self ! snd sidx)
               in case consider_nearest env self inp_seg df nearest (fst sidx) of
                    Inl e \<Rightarrow> Inl e
                  | Inr best \<Rightarrow>
                      (case consider_next env self inp_seg df next_nearest (snd sidx) best of
                         Inl e \<Rightarrow> Inl e
                       | Inr (psd_overlap, None) \<Rightarrow> Inl NoIntersectionError
                       | Inr (psd_overlap, Some best_psd) \<Rightarrow>
                           truncate_step env self best_psd))))"

subsection \<open>A small store to run the selector on\<close>

text \<open>
  Three stored PSDs of two bins each, told apart by their second bin, and a selector with
  a target length of three bins and a cutoff below the one of the store.
\<close>

definition example_env :: collaborators where
  "example_env =
     \<lparr>argpartition2 = argpartition2_sorted,
      load_frequencyseries = (\<lambda>i. \<lparr>data = [Finite 1, Finite (real i)], delta_f = 1\<rparr>),
      interpolate = (\<lambda>psd d. psd\<lparr>delta_f := d\<rparr>),
      inverse_spectrum_truncation = (\<lambda>psd n fl m. Some psd)\<rparr>"

definition example_store :: "real list \<Rightarrow> real list \<Rightarrow> PrecomputedTimeVaryingPSD" where
  "example_store starts ends =
     \<lparr>f_low = Some 0, target_length = Some 3, self_delta_f = 1, sample_rate = 4096,
      psd_inverse_length = None, invpsd_trunc_method = None,
      start_times = starts, end_times = ends,
      file_f_low = 1, psd_begin = Min (set starts), psd_end = Max (set ends)\<rparr>"


section \<open>The selector: errors and the choice between the two candidates\<close>

lemma reconcile_length_error:
  "reconcile_length target psd = Inl e \<Longrightarrow> e = ArrayError \<or> e = SeriesError"
  by (auto simp: reconcile_length_def FrequencySeries_new_def split: option.splits if_splits)

lemma mask_low_error: "mask_low self psd = Inl e \<Longrightarrow> e = ArithmeticError"
  by (auto simp: mask_low_def split: option.splits if_splits)

lemma get_psd_error:
  "get_psd env self index df = Inl e \<Longrightarrow> e = ArrayError \<or> e = SeriesError \<or> e = ArithmeticError"
  by (auto simp: get_psd_def split: sum.splits dest: reconcile_length_error mask_low_error)

lemma consider_nearest_error:
  "consider_nearest env self inp_seg df nearest idx = Inl e \<Longrightarrow>
     e = ArrayError \<or> e = SeriesError \<or> e = ArithmeticError \<or> e = SegmentError"
  by (auto simp: consider_nearest_def seg_and_def split: sum.splits if_splits dest: get_psd_error)

lemma consider_next_error:
  "consider_next env self inp_seg df next_nearest idx best = Inl e \<Longrightarrow>
     e = ArrayError \<or> e = SeriesError \<or> e = ArithmeticError \<or> e = SegmentError"
  by (auto simp: consider_next_def seg_and_def split: sum.splits if_splits dest: get_psd_error)

lemma truncate_step_error: "truncate_step env self psd = Inl e \<Longrightarrow> e = TruncationError"
  by (auto simp: truncate_step_def split: option.splits if_splits)

lemma range_error_iff:
  "(\<exists>b e. assosiate_psd_to_inspiral_segment env self inp_seg df = Inl (RangeError b e)) =
     (psd_end self < fst inp_seg \<or> snd inp_seg < psd_begin self)"
proof (cases "psd_end self < fst inp_seg \<or> snd inp_seg < psd_begin self")
  case True
  then show ?thesis by (auto simp: assosiate_psd_to_inspiral_segment_def)
next
  case False
  have "assosiate_psd_to_inspiral_segment env self inp_seg df \<noteq> Inl (RangeError b e)" for b e
    using False
    by (auto simp: assosiate_psd_to_inspiral_segment_def Let_def
        split: sum.splits option.splits prod.splits
        dest: consider_nearest_error consider_next_error truncate_step_error)
  with False show ?thesis by blast
qed

lemma example_init:
  "PrecomputedTimeVaryingPSD_init (Some 0) (Some 3) 1 4096 None None [0, 100, 200] [100, 200, 300] 1
     = Inr (example_store [0, 100, 200] [100, 200, 300])"
  by (simp add: PrecomputedTimeVaryingPSD_init_def example_store_def)

lemma example_get_psd:
  "get_psd example_env (example_store s e) i None = Inr \<lparr>data = [PosInf, Finite (real i), PosInf], delta_f = 1\<rparr>"
  by (simp add: get_psd_def example_env_def example_store_def resample_step_def
      reconcile_length_def FrequencySeries_new_def mask_low_def np_fill_upto_def py_int_def
      py_slice_start_def numeral_3_eq_3)

text \<open>
  C1. Once the range check has passed and the two candidates \<open>sidx[0] = i\<close> and
  \<open>sidx[1] = j\<close> have been found, the selector returns the PSD of the second candidate
  exactly when its overlap with the requested segment is strictly greater than the one of
  the first (a candidate that does not intersect counts as zero overlap, the baseline);
  otherwise it returns the PSD of the first candidate when that one intersects, so that on
  an equal overlap the first is kept; and when neither intersects it raises the error of
  line 247. The PSD returned has passed the optional inverse spectrum truncation of lines
  249 to 254.
\<close>

theorem best_overlap_selected:
  assumes in_range: "\<not> (psd_end self < fst inp_seg \<or> snd inp_seg < psd_begin self)"
    and entries: "3 \<le> length (start_times self)"
    and ordered: "fst inp_seg \<le> snd inp_seg"
    and sidx: "argpartition2 env (map (\<lambda>t. \<bar>t - fst inp_seg\<bar>) (start_times self)) = (i, j)"
    and bounds: "i < length (start_times self)" "i < length (end_times self)"
                "j < length (start_times self)" "j < length (end_times self)"
    and nearest: "nearest = segment (start_times self ! i) (end_times self ! i)"
    and next_nearest: "next_nearest = segment (start_times self ! j) (end_times self ! j)"
    and psd1: "get_psd env self i df = Inr psd1"
    and psd2: "get_psd env self j df = Inr psd2"
  shows "assosiate_psd_to_inspiral_segment env self inp_seg df =
           (if overlap_duration inp_seg nearest < overlap_duration inp_seg next_nearest
            then truncate_step env self psd2
            else if intersects inp_seg nearest then truncate_step env self psd1
            else Inl NoIntersectionError) \<and>
         (\<not> intersects inp_seg nearest \<and> \<not> intersects inp_seg next_nearest \<longrightarrow>
            assosiate_psd_to_inspiral_segment env self inp_seg df = Inl NoIntersectionError)"
proof -
  have n_ord: "fst nearest \<le> snd nearest" and nn_ord: "fst next_nearest \<le> snd next_nearest"
    by (simp_all add: nearest next_nearest segment_def)
  have and1: "intersects inp_seg nearest \<Longrightarrow>
      seg_and nearest inp_seg =
        Inr (max (fst nearest) (fst inp_seg), min (snd nearest) (snd inp_seg))"
    by (auto simp: intersects_def seg_and_def)
  have and2: "intersects inp_seg next_nearest \<Longrightarrow>
      seg_and next_nearest inp_seg =
        Inr (max (fst next_nearest) (fst inp_seg), min (snd next_nearest) (snd inp_seg))"
    by (auto simp: intersects_def seg_and_def)
  have o1: "0 \<le> overlap_duration inp_seg nearest"
    using n_ord ordered by (auto simp: overlap_duration_def intersects_def)
  have first: "consider_nearest env self inp_seg df nearest i =
      Inr (overlap_duration inp_seg nearest,
           if intersects inp_seg nearest then Some psd1 else None)"
    by (simp add: consider_nearest_def and1 psd1 overlap_duration_def seg_abs_def)
  have second: "consider_next env self inp_seg df next_nearest j (ov, b) =
      (if ov < overlap_duration inp_seg next_nearest
       then Inr (overlap_duration inp_seg next_nearest, Some psd2) else Inr (ov, b))"
    if "0 \<le> ov" for ov b
    using that by (simp add: consider_next_def and2 psd2 overlap_duration_def seg_abs_def)
  have chosen: "assosiate_psd_to_inspiral_segment env self inp_seg df =
           (if overlap_duration inp_seg nearest < overlap_duration inp_seg next_nearest
            then truncate_step env self psd2
            else if intersects inp_seg nearest then truncate_step env self psd1
            else Inl NoIntersectionError)"
    using in_range entries bounds o1
    by (simp add: assosiate_psd_to_inspiral_segment_def sidx Let_def first second
        nearest [symmetric] next_nearest [symmetric])
  then show ?thesis
    by (simp add: overlap_duration_def)
qed

theorem best_overlap_selected_witness:
  "3 \<le> length (start_times (example_store [0, 100, 200] [100, 200, 300])) \<and>
   intersects (50, 150) (segment 0 100) \<and> intersects (50, 150) (segment 100 200) \<and>
   overlap_duration (50, 150) (segment 0 100) = overlap_duration (50, 150) (segment 100 200) \<and>
   assosiate_psd_to_inspiral_segment example_env (example_store [0, 100, 200] [100, 200, 300])
       (50, 150) None =
     Inr \<lparr>data = [PosInf, Finite 0, PosInf], delta_f = 1\<rparr>"
proof -
  let ?s = "example_store [0, 100, 200] [100, 200, 300]"
  let ?seg = "(50, 150) :: seg"
  have h1: "\<not> (psd_end ?s < fst ?seg \<or> snd ?seg < psd_begin ?s)"
    by (simp add: example_store_def)
  have h2: "3 \<le> length (start_times ?s)"
    by (simp add: example_store_def)
  have h3: "fst ?seg \<le> snd ?seg"
    by simp
  have h4: "argpartition2 example_env (map (\<lambda>t. \<bar>t - fst ?seg\<bar>) (start_times ?s)) = (0, 1)"
    by (simp add: example_store_def example_env_def argpartition2_sorted_def)
  have h5: "0 < length (start_times ?s)" "0 < length (end_times ?s)"
    "1 < length (start_times ?s)" "1 < length (end_times ?s)"
    by (simp_all add: example_store_def)
  have h6: "segment 0 100 = segment (start_times ?s ! 0) (end_times ?s ! 0)"
    "segment 100 200 = segment (start_times ?s ! 1) (end_times ?s ! 1)"
    by (simp_all add: example_store_def)
  note sel = best_overlap_selected [OF h1 h2 h3 h4 h5 h6 example_get_psd example_get_psd,
      THEN conjunct1]
  show ?thesis
    unfolding sel
    by (simp add: overlap_duration_def intersects_def segment_def truncate_step_def
        example_store_def)
qed

text \<open>
  C8. On a selector built by the constructor, the call raises the error of line 227, whose
  message holds the range of the store, if and only if the requested segment ends before
  the earliest start time or begins after the latest end time; and the range in the
  message is the one from the minimum of the start times to the maximum of the end times.
\<close>

theorem range_error_iff_outside_store:
  assumes init: "PrecomputedTimeVaryingPSD_init low_frequency_cutoff len d rate inverse_length
                   trunc_method starts ends file_low = Inr self"
  shows "((\<exists>b e. assosiate_psd_to_inspiral_segment env self inp_seg df = Inl (RangeError b e)) =
            (snd inp_seg < Min (set starts) \<or> Max (set ends) < fst inp_seg)) \<and>
         (\<forall>b e. assosiate_psd_to_inspiral_segment env self inp_seg df = Inl (RangeError b e) \<longrightarrow>
            b = Min (set starts) \<and> e = Max (set ends))"
proof -
  from init have b: "psd_begin self = Min (set starts)" and e: "psd_end self = Max (set ends)"
    by (auto simp: PrecomputedTimeVaryingPSD_init_def split: if_splits)
  have iff: "(\<exists>b e. assosiate_psd_to_inspiral_segment env self inp_seg df = Inl (RangeError b e)) =
      (snd inp_seg < Min (set starts) \<or> Max (set ends) < fst inp_seg)"
    unfolding range_error_iff b e by blast
  have msg: "b' = Min (set starts) \<and> e' = Max (set ends)"
    if r: "assosiate_psd_to_inspiral_segment env self inp_seg df = Inl (RangeError b' e')" for b' e'
  proof -
    from r have "psd_end self < fst inp_seg \<or> snd inp_seg < psd_begin self"
      using range_error_iff [of env self inp_seg df] by blast
    then have "assosiate_psd_to_inspiral_segment env self inp_seg df =
        Inl (RangeError (psd_begin self) (psd_end self))"
      by (auto simp: assosiate_psd_to_inspiral_segment_def)
    with r show ?thesis by (simp add: b e)
  qed
  from iff msg show ?thesis by blast
qed

theorem range_error_iff_outside_store_witness:
  "PrecomputedTimeVaryingPSD_init (Some 0) (Some 3) 1 4096 None None
       [0, 100, 200] [100, 200, 300] 1 = Inr (example_store [0, 100, 200] [100, 200, 300]) \<and>
   Max (set [100, 200, 300 :: real]) < fst (350 :: real, 450 :: real) \<and>
   (\<exists>b e. assosiate_psd_to_inspiral_segment example_env
             (example_store [0, 100, 200] [100, 200, 300]) (350, 450) None =
           Inl (RangeError b e))"
proof -
  have out: "Max (set [100, 200, 300 :: real]) < fst (350 :: real, 450 :: real)"
    by simp
  from range_error_iff_outside_store [OF example_init, of example_env "(350, 450)" None] out
  have "\<exists>b e. assosiate_psd_to_inspiral_segment example_env
             (example_store [0, 100, 200] [100, 200, 300]) (350, 450) None =
           Inl (RangeError b e)"
    by blast
  with example_init out show ?thesis by blast
qed

text \<open>
  C10, as amended. On a store of fewer than three entries every call fails: with the
  range error of line 227 when the requested segment lies outside of the store's range,
  and otherwise, so also for a segment inside the coverage, with the out-of-bounds error
  of \<^verbatim>\<open>numpy.argpartition\<close>. The range check of line 223 comes first, so that the
  error is not the one of the candidate search on every call.
\<close>

theorem short_store_always_fails:
  assumes "length (start_times self) < 3"
  shows "assosiate_psd_to_inspiral_segment env self inp_seg df =
           (if psd_end self < fst inp_seg \<or> snd inp_seg < psd_begin self
            then Inl (RangeError (psd_begin self) (psd_end self))
            else Inl KthError)"
  using assms by (simp add: assosiate_psd_to_inspiral_segment_def)

theorem short_store_always_fails_witness:
  "length (start_times (example_store [0, 100] [100, 200])) < 3 \<and>
   assosiate_psd_to_inspiral_segment example_env (example_store [0, 100] [100, 200])
     (50, 150) None = Inl KthError"
proof -
  have short: "length (start_times (example_store [0, 100] [100, 200])) < 3"
    by (simp add: example_store_def)
  show ?thesis
    unfolding short_store_always_fails [OF short]
    by (simp add: example_store_def)
qed

theorem short_store_range_error_counterexample:
  "length (start_times (example_store [0, 100] [100, 200])) < 3 \<and>
   assosiate_psd_to_inspiral_segment example_env (example_store [0, 100] [100, 200])
     (350, 450) None = Inl (RangeError 0 200) \<and>
   assosiate_psd_to_inspiral_segment example_env (example_store [0, 100] [100, 200])
     (350, 450) None \<noteq> Inl KthError"
  by (simp add: assosiate_psd_to_inspiral_segment_def example_store_def)


section \<open>Loading and conditioning one PSD\<close>

lemma py_int_nonneg: "0 \<le> x \<Longrightarrow> py_int x = \<lfloor>x\<rfloor>"
  by (simp add: py_int_def)

lemma length_np_fill_upto: "length (np_fill_upto xs k v) = length xs"
  by (auto simp: np_fill_upto_def py_slice_start_def Let_def)

lemma nth_np_fill_upto:
  assumes "i < length xs" and "0 \<le> k"
  shows "np_fill_upto xs k v ! i = (if int i < k then v else xs ! i)"
  using assms by (auto simp: np_fill_upto_def py_slice_start_def Let_def nth_append)

lemma reconcile_length_returns:
  assumes "0 < delta_f psd" and "1 \<le> L" and "L \<noteq> int (length (data psd))"
  shows "reconcile_length (Some L) psd =
     Inr \<lparr>data = (if int (length (data psd)) < L
                   then data psd @ drop (length (data psd)) (replicate (nat L) PosInf)
                   else take (nat L) (data psd)),
          delta_f = delta_f psd\<rparr>"
  using assms by (simp add: reconcile_length_def FrequencySeries_new_def)

lemma reconcile_length_same:
  "target = None \<or> target = Some (int (length (data psd))) \<Longrightarrow> reconcile_length target psd = Inr psd"
  by (auto simp: reconcile_length_def)

lemma reconcile_length_spacing:
  "reconcile_length target psd = Inr psd' \<Longrightarrow> delta_f psd' = delta_f psd"
  by (auto simp: reconcile_length_def FrequencySeries_new_def split: option.splits if_splits)

lemma reconcile_length_total:
  assumes "0 < delta_f psd" and "\<forall>L. target = Some L \<longrightarrow> 1 \<le> L"
  shows "\<exists>psd'. reconcile_length target psd = Inr psd'"
proof (cases "target = None \<or> target = Some (int (length (data psd)))")
  case True
  then show ?thesis by (simp add: reconcile_length_same)
next
  case False
  then obtain L where "target = Some L" "L \<noteq> int (length (data psd))" by auto
  with assms show ?thesis by (simp add: reconcile_length_returns)
qed

text \<open>
  C7. With a loaded series of positive spacing and a target length of at least one bin,
  \<^verbatim>\<open>get_psd\<close> returns. When the configured cutoff is strictly below the cutoff recorded
  in the store, every bin of the returned series whose index is strictly below
  \<open>\<lfloor>file_f_low / delta_f\<rfloor>\<close>, with the spacing of the returned series, is \<open>+\<infinity>\<close>; when it
  is not (or none is configured), the returned series is the one that left the length
  reconciliation: no masking is applied.
\<close>

theorem low_frequency_mask:
  assumes spacing: "0 < delta_f (resample_step env (load_frequencyseries env index) df)"
    and target: "\<forall>L. target_length self = Some L \<longrightarrow> 1 \<le> L"
  shows "\<exists>psd. get_psd env self index df = Inr psd \<and>
           (if \<exists>fl. f_low self = Some fl \<and> fl < file_f_low self
            then \<forall>i < length (data psd).
                   int i < \<lfloor>file_f_low self / delta_f psd\<rfloor> \<longrightarrow> data psd ! i = PosInf
            else reconcile_length (target_length self)
                   (resample_step env (load_frequencyseries env index) df) = Inr psd)"
proof -
  let ?loaded = "resample_step env (load_frequencyseries env index) df"
  from reconcile_length_total [OF spacing target]
  obtain psd' where rec: "reconcile_length (target_length self) ?loaded = Inr psd'"
    by blast
  have sp: "0 < delta_f psd'"
    using reconcile_length_spacing [OF rec] spacing by simp
  show ?thesis
  proof (cases "\<exists>fl. f_low self = Some fl \<and> fl < file_f_low self")
    case False
    then have "mask_low self psd' = Inr psd'"
      by (auto simp: mask_low_def split: option.splits)
    with rec False show ?thesis by (auto simp: get_psd_def)
  next
    case True
    let ?k = "py_int (file_f_low self / delta_f psd')"
    let ?res = "psd'\<lparr>data := np_fill_upto (data psd') ?k PosInf\<rparr>"
    from True sp have m: "mask_low self psd' = Inr ?res"
      by (auto simp: mask_low_def)
    have "data ?res ! i = PosInf"
      if "i < length (data ?res)" "int i < \<lfloor>file_f_low self / delta_f ?res\<rfloor>" for i
    proof -
      from that(2) have pos: "0 \<le> file_f_low self / delta_f psd'"
        by (simp add: floor_less_cancel le_less) linarith
      with that show ?thesis
        by (simp add: length_np_fill_upto nth_np_fill_upto py_int_nonneg)
    qed
    with rec m True show ?thesis by (auto simp: get_psd_def)
  qed
qed


theorem low_frequency_mask_witness:
  "0 < delta_f (resample_step example_env (load_frequencyseries example_env 0) None) \<and>
   target_length (example_store [0, 100, 200] [100, 200, 300]) = Some 3 \<and>
   f_low (example_store [0, 100, 200] [100, 200, 300]) = Some 0 \<and>
   file_f_low (example_store [0, 100, 200] [100, 200, 300]) = 1 \<and>
   (\<exists>psd. get_psd example_env (example_store [0, 100, 200] [100, 200, 300]) 0 None = Inr psd \<and>
      0 < length (data psd) \<and> data psd ! 0 = PosInf)"
proof -
  let ?s = "example_store [0, 100, 200] [100, 200, 300]"
  have sp: "0 < delta_f (resample_step example_env (load_frequencyseries example_env 0) None)"
    by (simp add: resample_step_def example_env_def)
  have tg: "\<forall>L. target_length ?s = Some L \<longrightarrow> 1 \<le> L"
    by (simp add: example_store_def)
  have cut: "\<exists>fl. f_low ?s = Some fl \<and> fl < file_f_low ?s"
    by (simp add: example_store_def)
  from low_frequency_mask [OF sp tg] cut
  obtain psd where psd: "get_psd example_env ?s 0 None = Inr psd"
    and masked: "\<forall>i < length (data psd).
        int i < \<lfloor>file_f_low ?s / delta_f psd\<rfloor> \<longrightarrow> data psd ! i = PosInf"
    by auto
  from psd have shape: "length (data psd) = 3" "delta_f psd = 1"
    by (auto simp: example_get_psd)
  from masked shape have "data psd ! 0 = PosInf"
    by (simp add: example_store_def)
  with psd shape sp show ?thesis
    by (auto simp: example_store_def)
qed





section \<open>The resampler: trimming, length and bins\<close>

lemma np_assign_from_keeps:
  assumes "np_assign_from psd k rhs = Inr r"
  shows "length r = length psd"
    and "i < py_slice_start (length psd) k \<Longrightarrow> r ! i = psd ! i"
proof -
  have le: "py_slice_start (length psd) k \<le> length psd"
    by (auto simp: py_slice_start_def)
  from assms le show "length r = length psd"
    by (auto simp: np_assign_from_def Let_def split: if_splits)
  from assms le show "i < py_slice_start (length psd) k \<Longrightarrow> r ! i = psd ! i"
    by (auto simp: np_assign_from_def Let_def nth_append split: if_splits)
qed

lemma from_numpy_arrays_series:
  assumes "from_numpy_arrays freq_data noise_data len df low_freq_cutoff = Inr (w, psd)"
  obtains freq noise len' where
    "trim_data freq_data noise_data df low_freq_cutoff = Inr (freq, noise)"
    "len' = (if real_of_int (len - 1) * df > last freq then py_int (last freq / df + 1) else len)"
    "w = (if real_of_int (len - 1) * df > last freq
          then [ExceedsAvailable (real_of_int (len - 1) * df) (last freq)] else [])"
    "0 \<le> len'"
    "np_assign_from (replicate (nat len') 0) (py_int (low_freq_cutoff / df))
       (interpolated_bins freq noise (py_int (low_freq_cutoff / df)) len' df) = Inr (data psd)"
    "delta_f psd = df" "0 < df" "data psd \<noteq> []" "freq_data \<noteq> []"
    "hd freq_data \<le> low_freq_cutoff" "length freq = length noise"
  using assms
  by (auto simp: from_numpy_arrays_def resample_trimmed_def Let_def FrequencySeries_new_def
      py_index_def hd_conv_nth
      split: sum.splits if_splits prod.splits)

text \<open>
  C4. Whenever \<^verbatim>\<open>from_numpy_arrays\<close> returns a series, its spacing is \<open>delta_f\<close> and
  every bin with an index strictly below \<open>kmin = \<lfloor>low_freq_cutoff / delta_f\<rfloor>\<close> is exactly
  zero. This holds for every input on which the call returns, so in particular for the
  strictly increasing inputs with a cutoff at or above the first frequency.
\<close>

theorem bins_below_cutoff_zero:
  assumes "from_numpy_arrays freq_data noise_data len df low_freq_cutoff = Inr (w, psd)"
  shows "delta_f psd = df \<and>
         (\<forall>i < length (data psd). int i < \<lfloor>low_freq_cutoff / df\<rfloor> \<longrightarrow> data psd ! i = 0)"
proof -
  from assms obtain freq noise len' where
    len': "0 \<le> len'"
    and asg: "np_assign_from (replicate (nat len') 0) (py_int (low_freq_cutoff / df))
       (interpolated_bins freq noise (py_int (low_freq_cutoff / df)) len' df) = Inr (data psd)"
    and df: "delta_f psd = df"
    by (rule from_numpy_arrays_series)
  note keeps = np_assign_from_keeps [OF asg]
  have "data psd ! i = 0" if i: "i < length (data psd)" "int i < \<lfloor>low_freq_cutoff / df\<rfloor>" for i
  proof -
    define k where "k = \<lfloor>low_freq_cutoff / df\<rfloor>"
    from i(2) have k: "0 < k" "int i < k"
      by (simp_all add: k_def) linarith
    then have "0 \<le> low_freq_cutoff / df"
      unfolding k_def by linarith
    then have pk: "py_int (low_freq_cutoff / df) = k"
      by (simp add: py_int_def k_def)
    have "py_slice_start (nat len') k = min (nat len') (nat k)"
      using k(1) by (simp add: py_slice_start_def)
    with i(1) k(2) keeps(1) have "i < py_slice_start (length (replicate (nat len') (0::real)))
        (py_int (low_freq_cutoff / df))"
      by (simp add: pk)
    from keeps(2) [OF this] i keeps(1) show ?thesis by simp
  qed
  with df show ?thesis by blast
qed


theorem bins_below_cutoff_zero_witness:
  "\<exists>w psd. from_numpy_arrays [1, 2, 3, 4] [1, 1, 1, 1] 4 1 2 = Inr (w, psd) \<and>
      delta_f psd = 1 \<and> length (data psd) = 4 \<and> data psd ! 0 = 0 \<and> data psd ! 1 = 0"
proof -
  have trimmed: "trim_data [1, 2, 3, 4] [1, 1, 1, 1] 1 2 = Inr ([2, 3, 4], [1, 1, 1])"
    by (simp add: trim_data_def py_int_def searchsorted_def py_index_def py_slice_from_def
        py_slice_start_def Let_def)
  have bins: "interpolated_bins [2, 3, 4] [1, 1, 1] 2 4 1 = [1, 1]"
    by (simp add: interpolated_bins_def interp1d_def Let_def upto_rec_numeral)
  have run: "from_numpy_arrays [1, 2, 3, 4] [1, 1, 1, 1] 4 1 2 =
      Inr ([], \<lparr>data = [0, 0, 1, 1], delta_f = 1\<rparr>)"
    by (simp add: from_numpy_arrays_def resample_trimmed_def trimmed bins py_index_def py_int_def np_assign_from_def
        py_slice_start_def FrequencySeries_new_def Let_def eval_nat_numeral)
  from bins_below_cutoff_zero [OF run]
  have "data \<lparr>data = [0, 0, 1, 1 :: real], delta_f = 1\<rparr> ! 0 = 0"
    and "data \<lparr>data = [0, 0, 1, 1 :: real], delta_f = 1\<rparr> ! 1 = 0"
    and "delta_f \<lparr>data = [0, 0, 1, 1 :: real], delta_f = 1\<rparr> = 1"
    by simp_all
  with run show ?thesis by simp
qed

lemma searchsorted_le: "searchsorted a v \<le> length a"
  by (simp add: searchsorted_def length_takeWhile_le)

lemma trim_data_suffix:
  assumes ne: "freq_data \<noteq> []"
    and tr: "trim_data freq_data noise_data df low_freq_cutoff = Inr (freq, noise)"
  obtains j where "j < length freq_data" "freq = drop j freq_data"
    "length noise_data = length freq_data \<Longrightarrow> noise = drop j noise_data"
proof -
  define n where "n = length freq_data"
  define ds where "ds = (if hd freq_data = low_freq_cutoff then 0
      else int (searchsorted freq_data (real_of_int (py_int (low_freq_cutoff / df)) * df)) - 1)"
  from ne have n: "0 < n" by (simp add: n_def)
  have ds_lo: "- 1 \<le> ds" by (simp add: ds_def)
  from tr obtain f where idx: "py_index freq_data (ds + 1) = Inr f"
    and res: "freq = py_slice_from freq_data (if f = low_freq_cutoff then ds + 1 else ds)"
      "noise = py_slice_from noise_data (if f = low_freq_cutoff then ds + 1 else ds)"
    by (auto simp: trim_data_def Let_def ds_def split: sum.splits)
  from idx ds_lo have ds_hi: "ds + 1 < int n"
    by (auto simp: py_index_def n_def split: if_splits)
  define ds' where "ds' = (if f = low_freq_cutoff then ds + 1 else ds)"
  define j where "j = py_slice_start n ds'"
  have "j < n"
    using ds_lo ds_hi n by (auto simp: j_def ds'_def py_slice_start_def)
  moreover have "freq = drop j freq_data"
    using res by (simp add: py_slice_from_def j_def ds'_def n_def)
  moreover have "noise = drop j noise_data" if "length noise_data = length freq_data"
    using res that by (simp add: py_slice_from_def j_def ds'_def n_def)
  ultimately show ?thesis
    using that by (simp add: n_def)
qed

lemma trim_data_last:
  assumes "freq_data \<noteq> []"
    and "trim_data freq_data noise_data df low_freq_cutoff = Inr (freq, noise)"
  shows "freq \<noteq> []" and "last freq = last freq_data"
proof -
  from assms obtain j where "j < length freq_data" "freq = drop j freq_data"
    by (rule trim_data_suffix)
  then show "freq \<noteq> []" and "last freq = last freq_data"
    by simp_all
qed

lemma returned_length:
  assumes run: "from_numpy_arrays freq_data noise_data len df low_freq_cutoff = Inr (w, psd)"
    and nonneg: "0 \<le> last freq_data"
  shows "length (data psd) =
           (if real_of_int (len - 1) * df > last freq_data
            then nat (\<lfloor>last freq_data / df\<rfloor> + 1) else nat len) \<and>
         w = (if real_of_int (len - 1) * df > last freq_data
              then [ExceedsAvailable (real_of_int (len - 1) * df) (last freq_data)] else [])"
proof -
  from run obtain freq noise len' where
    tr: "trim_data freq_data noise_data df low_freq_cutoff = Inr (freq, noise)"
    and len': "len' = (if real_of_int (len - 1) * df > last freq
                       then py_int (last freq / df + 1) else len)"
    and w: "w = (if real_of_int (len - 1) * df > last freq
          then [ExceedsAvailable (real_of_int (len - 1) * df) (last freq)] else [])"
    and asg: "np_assign_from (replicate (nat len') 0) (py_int (low_freq_cutoff / df))
       (interpolated_bins freq noise (py_int (low_freq_cutoff / df)) len' df) = Inr (data psd)"
    and df: "0 < df" and ne: "freq_data \<noteq> []"
    by (rule from_numpy_arrays_series)
  have last: "last freq = last freq_data"
    using trim_data_last [OF ne tr] by simp
  have "py_int (last freq_data / df + 1) = \<lfloor>last freq_data / df\<rfloor> + 1"
    using nonneg df by (simp add: py_int_def)
  with np_assign_from_keeps(1) [OF asg] len' w last show ?thesis
    by simp
qed

lemma searchsorted_less:
  assumes "x \<in> set a" and "v \<le> x"
  shows "searchsorted a v < length a"
proof -
  have "dropWhile (\<lambda>x. x < v) a \<noteq> []"
    using assms by (auto simp: dropWhile_eq_Nil_conv not_less intro!: bexI [of _ x])
  then have "length (dropWhile (\<lambda>x. x < v) a) \<noteq> 0"
    by (simp only: length_0_conv not_False_eq_True)
  moreover have "length (takeWhile (\<lambda>x. x < v) a) + length (dropWhile (\<lambda>x. x < v) a) = length a"
    by (metis length_append takeWhile_dropWhile_id)
  ultimately show ?thesis
    unfolding searchsorted_def by linarith
qed

lemma searchsorted_all_below:
  assumes "\<forall>x \<in> set a. x < v"
  shows "searchsorted a v = length a"
  using assms by (simp add: searchsorted_def takeWhile_eq_all_conv [THEN iffD2])

lemma sorted_le_last: "sorted xs \<Longrightarrow> x \<in> set xs \<Longrightarrow> x \<le> last (xs :: real list)"
  by (induction xs) auto

lemma trim_data_returns:
  assumes ne: "freq_data \<noteq> []" and ok: "index_in_range freq_data df low_freq_cutoff"
  shows "\<exists>freq noise. trim_data freq_data noise_data df low_freq_cutoff = Inr (freq, noise)"
proof -
  define ds where "ds = (if hd freq_data = low_freq_cutoff then 0
      else int (searchsorted freq_data (real_of_int (py_int (low_freq_cutoff / df)) * df)) - 1)"
  have "0 \<le> ds + 1" "ds + 1 < int (length freq_data)"
  proof -
    show "0 \<le> ds + 1" by (simp add: ds_def)
    show "ds + 1 < int (length freq_data)"
    proof (cases "hd freq_data = low_freq_cutoff")
      case True
      with ok show ?thesis by (simp add: ds_def index_in_range_def)
    next
      case False
      with ok have "real_of_int (py_int (low_freq_cutoff / df)) * df \<le> last freq_data"
        by (simp add: index_in_range_def)
      from searchsorted_less [OF last_in_set [OF ne] this] False show ?thesis
        by (simp add: ds_def)
    qed
  qed
  then obtain f where "py_index freq_data (ds + 1) = Inr f"
    by (auto simp: py_index_def)
  then show ?thesis
    by (simp add: trim_data_def Let_def ds_def [symmetric])
qed

lemma trim_data_index_error:
  assumes ne: "freq_data \<noteq> []" and sorted: "sorted freq_data"
    and bad: "\<not> index_in_range freq_data df low_freq_cutoff"
  shows "trim_data freq_data noise_data df low_freq_cutoff = Inl IndexError"
proof -
  define ds where "ds = (if hd freq_data = low_freq_cutoff then 0
      else int (searchsorted freq_data (real_of_int (py_int (low_freq_cutoff / df)) * df)) - 1)"
  have "ds + 1 = int (length freq_data)"
  proof (cases "hd freq_data = low_freq_cutoff")
    case True
    with bad have "\<not> 2 \<le> length freq_data"
      by (simp add: index_in_range_def)
    moreover from ne have "0 < length freq_data"
      by simp
    ultimately have "length freq_data = 1"
      by linarith
    with True show ?thesis by (simp add: ds_def)
  next
    case False
    with bad have lt: "last freq_data < real_of_int (py_int (low_freq_cutoff / df)) * df"
      by (simp add: index_in_range_def)
    have "x < real_of_int (py_int (low_freq_cutoff / df)) * df" if "x \<in> set freq_data" for x
      using sorted_le_last [OF sorted that] lt by linarith
    then have "\<forall>x \<in> set freq_data. x < real_of_int (py_int (low_freq_cutoff / df)) * df"
      by blast
    from searchsorted_all_below [OF this] False show ?thesis
      by (simp add: ds_def)
  qed
  then have "py_index freq_data (ds + 1) = Inl IndexError"
    by (simp add: py_index_def)
  then show ?thesis
    by (simp add: trim_data_def Let_def ds_def [symmetric])
qed

lemma length_interpolated_bins [simp]:
  "length (interpolated_bins freq noise k L df) = nat (L - k)"
  by (simp add: interpolated_bins_def Let_def)

lemma np_assign_bins:
  assumes "0 \<le> k" and "0 \<le> L"
  shows "np_assign_from (replicate (nat L) 0) k (interpolated_bins freq noise k L df) =
           Inr (replicate (min (nat L) (nat k)) 0 @ interpolated_bins freq noise k L df)"
proof -
  have "py_slice_start (nat L) k = min (nat L) (nat k)"
    using assms by (simp add: py_slice_start_def)
  moreover have "nat (L - k) = nat L - min (nat L) (nat k)"
    using assms by arith
  ultimately show ?thesis
    by (simp add: np_assign_from_def Let_def)
qed

lemma resample_trimmed_returns:
  assumes df: "0 < df" and len: "1 \<le> len" and eq: "length freq = length noise"
    and nonneg: "0 \<le> last freq" "0 \<le> low_freq_cutoff"
  shows "\<exists>w psd. resample_trimmed freq noise len df low_freq_cutoff = Inr (w, psd)"
proof -
  have k0: "0 \<le> py_int (low_freq_cutoff / df)"
    using nonneg df by (simp add: py_int_def)
  have "py_int (last freq / df + 1) = \<lfloor>last freq / df\<rfloor> + 1"
    using nonneg df by (simp add: py_int_def)
  moreover have "0 \<le> \<lfloor>last freq / df\<rfloor>"
    using nonneg df by simp
  ultimately have l1: "1 \<le> py_int (last freq / df + 1)"
    by simp
  show ?thesis
  proof (cases "real_of_int (len - 1) * df > last freq")
    case True
    note asg = np_assign_bins [OF k0, of "py_int (last freq / df + 1)" freq noise df]
    from True l1 k0 asg eq df show ?thesis
      by (auto simp: resample_trimmed_def Let_def FrequencySeries_new_def)
  next
    case False
    note asg = np_assign_bins [OF k0, of len freq noise df]
    from False len k0 asg eq df show ?thesis
      by (auto simp: resample_trimmed_def Let_def FrequencySeries_new_def)
  qed
qed

lemma from_numpy_arrays_returns:
  assumes ne: "freq_data \<noteq> []" and cutoff: "hd freq_data \<le> low_freq_cutoff"
    and df: "0 < df" and len: "1 \<le> len"
    and same: "length noise_data = length freq_data"
    and nonneg: "0 \<le> hd freq_data" "0 \<le> last freq_data"
    and ok: "index_in_range freq_data df low_freq_cutoff"
  shows "\<exists>w psd. from_numpy_arrays freq_data noise_data len df low_freq_cutoff = Inr (w, psd)"
proof -
  from trim_data_returns [OF ne ok] obtain freq noise
    where tr: "trim_data freq_data noise_data df low_freq_cutoff = Inr (freq, noise)"
    by blast
  from trim_data_suffix [OF ne tr] same have eq: "length freq = length noise"
    by (metis length_drop)
  have last: "last freq = last freq_data"
    using trim_data_last [OF ne tr] by simp
  have idx: "py_index freq_data 0 = Inr (hd freq_data)"
    using ne by (simp add: py_index_def hd_conv_nth)
  from resample_trimmed_returns [OF df len eq, of low_freq_cutoff] nonneg cutoff last
  obtain w psd where "resample_trimmed freq noise len df low_freq_cutoff = Inr (w, psd)"
    by auto
  with cutoff df show ?thesis
    by (simp add: from_numpy_arrays_def idx tr)
qed

lemma from_numpy_arrays_index_error:
  assumes ne: "freq_data \<noteq> []" and cutoff: "hd freq_data \<le> low_freq_cutoff"
    and df: "0 < df" and sorted: "sorted freq_data"
    and bad: "\<not> index_in_range freq_data df low_freq_cutoff"
  shows "from_numpy_arrays freq_data noise_data len df low_freq_cutoff = Inl IndexError"
proof -
  have idx: "py_index freq_data 0 = Inr (hd freq_data)"
    using ne by (simp add: py_index_def hd_conv_nth)
  show ?thesis
    using cutoff df
    by (simp add: from_numpy_arrays_def idx trim_data_index_error [OF ne sorted bad])
qed

text \<open>
  Where the trimming does not wrap around (the first sample is the cutoff or lies below
  \<open>flow\<close>), the retained data start at the cutoff, or at the greatest sample below
  \<open>flow\<close>.
\<close>

lemma searchsorted_below:
  assumes "m < searchsorted a v"
  shows "a ! m < v"
proof -
  from assms have m: "m < length (takeWhile (\<lambda>x. x < v) a)"
    by (simp add: searchsorted_def)
  then have "takeWhile (\<lambda>x. x < v) a ! m \<in> set (takeWhile (\<lambda>x. x < v) a)"
    by (rule nth_mem)
  then have "takeWhile (\<lambda>x. x < v) a ! m < v"
    by (auto dest: set_takeWhileD)
  with m show ?thesis
    by (simp add: takeWhile_nth)
qed

lemma searchsorted_not_below:
  assumes "searchsorted a v < length a"
  shows "v \<le> a ! searchsorted a v"
  using nth_length_takeWhile [of "\<lambda>x. x < v" a] assms
  by (simp add: searchsorted_def not_less)

lemma searchsorted_positive:
  assumes "a \<noteq> []" and "hd a < v"
  shows "0 < searchsorted a v"
  using assms by (cases a) (simp_all add: searchsorted_def)

lemma flow_le_cutoff:
  assumes "0 < df" and "0 \<le> low_freq_cutoff"
  shows "real_of_int (py_int (low_freq_cutoff / df)) * df \<le> low_freq_cutoff"
proof -
  have "real_of_int \<lfloor>low_freq_cutoff / df\<rfloor> * df \<le> low_freq_cutoff / df * df"
    using assms by (intro mult_right_mono) simp_all
  with assms show ?thesis
    by (simp add: py_int_def)
qed

lemma strict_sorted_nth_mono:
  assumes "sorted_wrt (<) (xs :: real list)" and "a \<le> b" and "b < length xs"
  shows "xs ! a \<le> xs ! b"
proof (cases "a = b")
  case True
  then show ?thesis by simp
next
  case False
  with assms have "xs ! a < xs ! b"
    by (simp add: sorted_wrt_nth_less)
  then show ?thesis by simp
qed

lemma trim_data_no_wrap:
  assumes ne: "freq_data \<noteq> []"
    and inc: "sorted_wrt (<) freq_data"
    and same: "length noise_data = length freq_data"
    and tr: "trim_data freq_data noise_data df low_freq_cutoff = Inr (freq, noise)"
    and no_wrap: "hd freq_data = low_freq_cutoff \<or>
                  hd freq_data < real_of_int (py_int (low_freq_cutoff / df)) * df"
  obtains j where "j < length freq_data" "freq = drop j freq_data" "noise = drop j noise_data"
    "\<forall>m < j. freq_data ! m < real_of_int (py_int (low_freq_cutoff / df)) * df"
    "freq_data ! j = low_freq_cutoff \<or>
     (hd freq_data \<noteq> low_freq_cutoff \<and> Suc j = searchsorted freq_data
        (real_of_int (py_int (low_freq_cutoff / df)) * df))"
proof -
  define flow where "flow = real_of_int (py_int (low_freq_cutoff / df)) * df"
  define n where "n = length freq_data"
  define ss where "ss = searchsorted freq_data flow"
  define ds where "ds = (if hd freq_data = low_freq_cutoff then 0
      else int (searchsorted freq_data (real_of_int (py_int (low_freq_cutoff / df)) * df)) - 1)"
  from tr obtain f where idx: "py_index freq_data (ds + 1) = Inr f"
    and res: "freq = py_slice_from freq_data (if f = low_freq_cutoff then ds + 1 else ds)"
      "noise = py_slice_from noise_data (if f = low_freq_cutoff then ds + 1 else ds)"
    by (auto simp: trim_data_def Let_def ds_def split: sum.splits)
  have ds_ss: "ds = (if hd freq_data = low_freq_cutoff then 0 else int ss - 1)"
    by (simp add: ds_def ss_def flow_def)
  have ss1: "0 < ss" if "hd freq_data \<noteq> low_freq_cutoff"
  proof -
    from that no_wrap have "hd freq_data < flow" by (simp add: flow_def)
    from searchsorted_positive [OF ne this] show ?thesis
      by (simp add: ss_def)
  qed
  then have ds0: "0 \<le> ds"
    by (auto simp: ds_ss)
  from idx ds0 have hi: "ds + 1 < int n" and f: "f = freq_data ! nat (ds + 1)"
    by (auto simp: py_index_def n_def split: if_splits)
  define j where "j = nat (if f = low_freq_cutoff then ds + 1 else ds)"
  have jn: "j < n"
    using ds0 hi by (auto simp: j_def)
  have start: "py_slice_start n (if f = low_freq_cutoff then ds + 1 else ds) = j"
    using ds0 hi by (auto simp: py_slice_start_def j_def)
  have fr: "freq = drop j freq_data" and no: "noise = drop j noise_data"
    using res start same by (simp_all add: py_slice_from_def n_def)
  have first: "freq_data ! 0 = hd freq_data"
    using ne by (simp add: hd_conv_nth)
  have at_cutoff: "j = 0" if eq: "hd freq_data = low_freq_cutoff"
  proof -
    from eq have ds: "ds = 0" by (simp add: ds_ss)
    with hi have "1 < n" by simp
    with inc have "freq_data ! 0 < freq_data ! 1"
      by (simp add: sorted_wrt_nth_less n_def)
    with f ds first eq have "f \<noteq> low_freq_cutoff" by simp
    with ds show ?thesis by (simp add: j_def)
  qed
  have before: "\<forall>m < j. freq_data ! m < flow"
  proof (cases "hd freq_data = low_freq_cutoff")
    case True
    with at_cutoff show ?thesis by simp
  next
    case False
    then have "j \<le> ss"
      using ds0 by (auto simp: j_def ds_ss)
    then show ?thesis
      using searchsorted_below [of _ freq_data flow] by (auto simp: ss_def)
  qed
  have what: "freq_data ! j = low_freq_cutoff \<or>
      (hd freq_data \<noteq> low_freq_cutoff \<and> Suc j = ss)"
  proof (cases "hd freq_data = low_freq_cutoff")
    case True
    with at_cutoff first show ?thesis by simp
  next
    case False
    show ?thesis
    proof (cases "f = low_freq_cutoff")
      case True
      with f ds0 show ?thesis by (simp add: j_def)
    next
      case f_other: False
      from ss1 [OF False] have "Suc (nat (int ss - 1)) = ss" by linarith
      with False f_other show ?thesis by (simp add: j_def ds_ss)
    qed
  qed
  from jn fr no before what show ?thesis
    using that by (simp add: n_def flow_def ss_def)
qed

lemma trim_data_start:
  assumes ne: "freq_data \<noteq> []"
    and inc: "sorted_wrt (<) freq_data"
    and same: "length noise_data = length freq_data"
    and tr: "trim_data freq_data noise_data df low_freq_cutoff = Inr (freq, noise)"
    and no_wrap: "hd freq_data = low_freq_cutoff \<or>
                  hd freq_data < real_of_int (py_int (low_freq_cutoff / df)) * df"
  shows "freq \<noteq> [] \<and>
         (hd freq = low_freq_cutoff \<or>
          (hd freq < real_of_int (py_int (low_freq_cutoff / df)) * df \<and>
           (\<forall>x \<in> set freq_data.
              x < real_of_int (py_int (low_freq_cutoff / df)) * df \<longrightarrow> x \<le> hd freq)))"
proof -
  define flow where "flow = real_of_int (py_int (low_freq_cutoff / df)) * df"
  from trim_data_no_wrap [OF ne inc same tr no_wrap]
  obtain j where j: "j < length freq_data" and fr: "freq = drop j freq_data"
    and before: "\<forall>m < j. freq_data ! m < flow"
    and what: "freq_data ! j = low_freq_cutoff \<or>
      (hd freq_data \<noteq> low_freq_cutoff \<and> Suc j = searchsorted freq_data flow)"
    unfolding flow_def by blast
  from j fr have hd: "hd freq = freq_data ! j" and nonempty: "freq \<noteq> []"
    by (simp_all add: hd_drop_conv_nth)
  have "hd freq = low_freq_cutoff \<or>
      (hd freq < flow \<and> (\<forall>x \<in> set freq_data. x < flow \<longrightarrow> x \<le> hd freq))"
  proof (cases "freq_data ! j = low_freq_cutoff")
    case True
    with hd show ?thesis by simp
  next
    case False
    with what have ss: "Suc j = searchsorted freq_data flow" by simp
    then have below: "freq_data ! j < flow"
      using searchsorted_below [of j freq_data flow] by simp
    have "x \<le> freq_data ! j" if x: "x \<in> set freq_data" "x < flow" for x
    proof -
      from x(1) obtain m where m: "m < length freq_data" "x = freq_data ! m"
        by (auto simp: in_set_conv_nth)
      have "m \<le> j"
      proof (rule ccontr)
        assume "\<not> m \<le> j"
        then have jm: "Suc j \<le> m" by simp
        with m(1) have "Suc j < length freq_data" by simp
        with ss have "flow \<le> freq_data ! Suc j"
          using searchsorted_not_below [of freq_data flow] by simp
        moreover have "freq_data ! Suc j \<le> freq_data ! m"
          using strict_sorted_nth_mono [OF inc jm m(1)] .
        ultimately show False
          using x(2) m(2) by simp
      qed
      from strict_sorted_nth_mono [OF inc this j] m(2) show ?thesis
        by simp
    qed
    with below hd show ?thesis by simp
  qed
  with nonempty show ?thesis
    by (simp add: flow_def)
qed

text \<open>
  On such inputs a strictly increasing positive series is reproduced at every bin that
  coincides with a sample at or above the cutoff: the interpolator returns the value of a
  node at the node.
\<close>

lemma np_interp_node:
  assumes "sorted_wrt (<) (map fst nodes)" and "m < length nodes"
  shows "np_interp nodes (fst (nodes ! m)) = snd (nodes ! m)"
  using assms
proof (induction nodes "fst (nodes ! m)" arbitrary: m rule: np_interp.induct)
  case 1
  then show ?case by simp
next
  case (2 x0 y0)
  then show ?case by simp
next
  case (3 x0 y0 x1 y1 ps)
  show ?case
  proof (cases m)
    case 0
    with "3.prems" show ?thesis by simp
  next
    case (Suc m')
    with "3.prems" have ge: "\<not> fst (((x0, y0) # (x1, y1) # ps) ! m) < x1"
      by (cases m') (auto simp: not_less less_imp_le)
    have "np_interp ((x1, y1) # ps) (fst (((x1, y1) # ps) ! m')) = snd (((x1, y1) # ps) ! m')"
      using "3.prems" Suc ge by (intro "3.hyps") auto
    with Suc ge show ?thesis by simp
  qed
qed


lemma interp1d_node:
  assumes inc: "sorted_wrt (<) x" and len: "length x = length y" and m: "m < length x"
  shows "interp1d x y fill_below fill_above (x ! m) = y ! m"
proof -
  have fsts: "map fst (zip x y) = x"
    using len by (simp add: map_fst_zip)
  have "sorted (map fst (zip x y))"
    using inc by (simp add: fsts strict_sorted_imp_sorted)
  then have nodes: "sort_key fst (zip x y) = zip x y"
    by (rule sort_key_id_if_sorted)
  have ne: "zip x y \<noteq> []"
    using m len by (cases x; cases y) auto
  have "fst (hd (zip x y)) = x ! 0"
    using ne len m by (simp add: hd_conv_nth)
  moreover have "x ! 0 \<le> x ! m"
    using strict_sorted_nth_mono [OF inc _ m, of 0] by simp
  ultimately have lo: "\<not> x ! m < fst (hd (zip x y))"
    by simp
  have "fst (last (zip x y)) = x ! (length x - 1)"
    using ne len m by (simp add: last_conv_nth)
  moreover have "x ! m \<le> x ! (length x - 1)"
    using strict_sorted_nth_mono [OF inc, of m "length x - 1"] m by simp
  ultimately have hi: "\<not> fst (last (zip x y)) < x ! m"
    by simp
  have "np_interp (zip x y) (fst (zip x y ! m)) = snd (zip x y ! m)"
    using inc m len by (intro np_interp_node) (simp_all add: fsts)
  then have "np_interp (zip x y) (x ! m) = y ! m"
    using m len by simp
  with lo hi show ?thesis
    by (simp add: interp1d_def nodes)
qed

lemma strict_sorted_hd_le:
  assumes "sorted_wrt (<) (xs :: real list)" and "x \<in> set xs"
  shows "hd xs \<le> x"
proof -
  from assms(2) obtain m where m: "m < length xs" "x = xs ! m"
    by (auto simp: in_set_conv_nth)
  then have "xs ! 0 \<le> xs ! m"
    using strict_sorted_nth_mono [OF assms(1), of 0 m] by simp
  with m show ?thesis
    by (cases xs) simp_all
qed

lemma node_values_reproduced:
  assumes run: "from_numpy_arrays freq_data noise_data len df low_freq_cutoff = Inr (w, psd)"
    and inc: "sorted_wrt (<) freq_data"
    and pos: "0 < hd freq_data"
    and noise_pos: "\<forall>y \<in> set noise_data. 0 < y"
    and same: "length noise_data = length freq_data"
    and no_wrap: "hd freq_data = low_freq_cutoff \<or>
                  hd freq_data < real_of_int (py_int (low_freq_cutoff / df)) * df"
    and node: "i < length freq_data" "freq_data ! i = real_of_int k * df"
      "low_freq_cutoff \<le> freq_data ! i"
    and bin: "k < int (length (data psd))"
  shows "data psd ! nat k = noise_data ! i"
proof -
  define kmin where "kmin = py_int (low_freq_cutoff / df)"
  define flow where "flow = real_of_int kmin * df"
  from run obtain freq noise len' where
    tr: "trim_data freq_data noise_data df low_freq_cutoff = Inr (freq, noise)"
    and len0: "0 \<le> len'"
    and asg: "np_assign_from (replicate (nat len') 0) kmin
       (interpolated_bins freq noise kmin len' df) = Inr (data psd)"
    and df: "0 < df" and ne: "freq_data \<noteq> []" and cutoff: "hd freq_data \<le> low_freq_cutoff"
    unfolding kmin_def by (rule from_numpy_arrays_series)
  have c0: "0 \<le> low_freq_cutoff"
    using pos cutoff by simp
  have k0: "0 \<le> kmin"
    using c0 df by (simp add: kmin_def py_int_def)
  have flow_le: "flow \<le> low_freq_cutoff"
    using flow_le_cutoff [OF df c0] by (simp add: flow_def kmin_def)
  from asg have psd: "data psd = replicate (min (nat len') (nat kmin)) 0 @
      interpolated_bins freq noise kmin len' df"
    by (simp add: np_assign_bins [OF k0 len0])
  have length: "int (length (data psd)) = len'"
    using np_assign_from_keeps(1) [OF asg] len0 by simp
  \<comment> \<open>the bin lies at or after \<open>kmin\<close>\<close>
  have "low_freq_cutoff / df \<le> real_of_int k"
    using node df by (simp add: pos_divide_le_eq)
  then have "\<lfloor>low_freq_cutoff / df\<rfloor> \<le> k"
    by (simp add: floor_le_iff)
  then have kk: "kmin \<le> k"
    using c0 df by (simp add: kmin_def py_int_def)
  from bin length have kl: "k < len'" by simp
  have at: "data psd ! nat k = interpolated_bins freq noise kmin len' df ! nat (k - kmin)"
    using kk kl k0 by (simp add: psd nth_append min_def nat_diff_distrib) 
  have "0 < freq_data ! i"
    using strict_sorted_hd_le [OF inc nth_mem [OF node(1)]] pos by simp
  with node(2) have "real_of_int k * df \<noteq> 0"
    by linarith
  then have "interpolated_bins freq noise kmin len' df ! nat (k - kmin) =
        exp (interp1d (map ln freq) (map ln noise) (hd (map ln noise)) (last (map ln noise))
               (ln (real_of_int k * df)))"
    using kk kl by (simp add: interpolated_bins_def Let_def nth_upto)
  \<comment> \<open>the sample is retained\<close>
  moreover
  from trim_data_no_wrap [OF ne inc same tr no_wrap]
  obtain j where j: "j < length freq_data" and fr: "freq = drop j freq_data"
    and no: "noise = drop j noise_data"
    and before: "\<forall>m < j. freq_data ! m < flow"
    unfolding flow_def kmin_def by blast
  have ji: "j \<le> i"
  proof (rule ccontr)
    assume "\<not> j \<le> i"
    with before have "freq_data ! i < flow" by simp
    with flow_le node(3) show False by simp
  qed
  define m where "m = i - j"
  have m: "m < length freq" "freq ! m = freq_data ! i" "noise ! m = noise_data ! i"
    using ji node(1) same by (simp_all add: m_def fr no)
  have all_pos: "0 < x" if "x \<in> set freq_data" for x
    using strict_sorted_hd_le [OF inc that] pos by simp
  have freq_pos: "\<forall>x \<in> set freq. 0 < x"
    using all_pos by (auto simp: fr dest: in_set_dropD)
  have "sorted_wrt (<) freq"
    using inc by (simp add: fr sorted_wrt_drop)
  then have inc_log: "sorted_wrt (<) (map ln freq)"
    using freq_pos by (auto simp: sorted_wrt_map intro: sorted_wrt_mono_rel [rotated])
  have "ln (real_of_int k * df) = map ln freq ! m"
    using m node(2) by simp
  then have "interp1d (map ln freq) (map ln noise) (hd (map ln noise)) (last (map ln noise))
      (ln (real_of_int k * df)) = map ln noise ! m"
    using interp1d_node [OF inc_log, of "map ln noise" m] m(1) same
    by (simp add: fr no)
  moreover have "0 < noise_data ! i"
    using noise_pos node(1) same by simp
  ultimately show ?thesis
    using at m same by (simp add: fr no)
qed

lemma trim_data_error: "trim_data freq_data noise_data df low_freq_cutoff = Inl e \<Longrightarrow> e = IndexError"
  by (auto simp: trim_data_def Let_def py_index_def split: sum.splits if_splits)

lemma resample_trimmed_error:
  "resample_trimmed freq noise len df low_freq_cutoff = Inl e \<Longrightarrow>
     e = InterpError \<or> e = ArrayError \<or> e = SeriesError"
  by (auto simp: resample_trimmed_def Let_def np_assign_from_def FrequencySeries_new_def
      split: sum.splits if_splits)

lemma low_cutoff_error_iff:
  assumes "freq_data \<noteq> []"
  shows "(\<exists>c. from_numpy_arrays freq_data noise_data len df low_freq_cutoff = Inl (LowCutoffError c)) =
           (low_freq_cutoff < hd freq_data)"
proof -
  have idx: "py_index freq_data 0 = Inr (hd freq_data)"
    using assms by (simp add: py_index_def hd_conv_nth)
  show ?thesis
    by (auto simp: from_numpy_arrays_def idx split: sum.splits
        dest: trim_data_error resample_trimmed_error)
qed

text \<open>
  C2 fails on the code. With the samples 2, 4 and 6, a spacing of 2 and a cutoff of 3,
  \<open>flow\<close> is 2, the first sample. \<^verbatim>\<open>searchsorted\<close> gives 0, \<open>data_start\<close> is \<open>-1\<close>, and
  the slice \<^verbatim>\<open>freq_data[-1:]\<close> keeps the last sample alone: the retained data start at
  6 and not at or just before \<open>flow\<close>.
\<close>

theorem trim_keeps_only_last_sample:
  "sorted_wrt (<) [2, 4, 6 :: real] \<and> hd [2, 4, 6 :: real] \<le> 3 \<and>
   real_of_int (py_int (3 / 2)) * 2 = 2 \<and>
   trim_data [2, 4, 6] [1, 1, 1] 2 3 = Inr ([6], [1])"
  by (simp add: trim_data_def py_int_def searchsorted_def py_index_def py_slice_from_def
      py_slice_start_def Let_def)

text \<open>
  C3 fails on the code. The samples 10, 20 and 30 with a cutoff of 40, a spacing of 1 and
  50 requested bins are a valid input whose requested highest frequency, 49, exceeds the
  highest one of the data; the call does not warn and shrink, it raises the
  \<^verbatim>\<open>IndexError\<close> of line 64, where \<^verbatim>\<open>freq_data[3]\<close> is read.
\<close>

theorem cutoff_above_data_raises_index_error:
  "sorted_wrt (<) [10, 20, 30 :: real] \<and> hd [10, 20, 30 :: real] \<le> 40 \<and>
   last [10, 20, 30] < real_of_int (50 - 1) * 1 \<and>
   from_numpy_arrays [10, 20, 30] [1, 1, 1] 50 1 40 = Inl IndexError"
  by (simp add: from_numpy_arrays_def trim_data_def py_int_def searchsorted_def py_index_def
      Let_def)

text \<open>
  C5 fails on the code. A single sample at the cutoff satisfies
  \<^verbatim>\<open>freq_data[0] <= low_freq_cutoff\<close>, and the call raises the \<^verbatim>\<open>IndexError\<close> of
  line 64, where \<^verbatim>\<open>freq_data[1]\<close> is read.
\<close>

theorem single_sample_raises_index_error:
  "sorted_wrt (<) [10 :: real] \<and> hd [10 :: real] \<le> 10 \<and>
   from_numpy_arrays [10] [1] 1 1 10 = Inl IndexError"
  by (simp add: from_numpy_arrays_def trim_data_def py_int_def searchsorted_def py_index_def
      Let_def)

text \<open>
  C9 fails on the code. The samples 10, 11 and 12 with the values 1, 2 and 3 lie on the
  grid of spacing 1. With a cutoff of 10.5, \<open>flow\<close> is 10, the trimming keeps the last
  sample alone (as for C2), and every bin from \<open>kmin = 10\<close> on gets its value 3: the bin
  at 11 Hz, a sample point above the cutoff, holds 3 and not the input value 2.
\<close>

theorem grid_input_not_reproduced:
  "sorted_wrt (<) [10, 11, 12 :: real] \<and>
   [10, 11, 12] ! 1 = real_of_int 11 * (1 :: real) \<and> 21 / 2 \<le> [10, 11, 12 :: real] ! 1 \<and>
   from_numpy_arrays [10, 11, 12] [1, 2, 3] 13 1 (21 / 2) =
     Inr ([], \<lparr>data = [0, 0, 0, 0, 0, 0, 0, 0, 0, 0, 3, 3, 3], delta_f = 1\<rparr>) \<and>
   [0, 0, 0, 0, 0, 0, 0, 0, 0, 0, 3, 3, 3] ! nat 11 \<noteq> [1, 2, 3 :: real] ! 1"
proof -
  have trimmed: "trim_data [10, 11, 12] [1, 2, 3] 1 (21 / 2) = Inr ([12], [3])"
    by (simp add: trim_data_def py_int_def searchsorted_def py_index_def py_slice_from_def
        py_slice_start_def Let_def)
  have bins: "interpolated_bins [12] [3] 10 13 1 = [3, 3, 3]"
    by (simp add: interpolated_bins_def interp1d_def Let_def upto_rec_numeral)
  have "from_numpy_arrays [10, 11, 12] [1, 2, 3] 13 1 (21 / 2) =
     Inr ([], \<lparr>data = [0, 0, 0, 0, 0, 0, 0, 0, 0, 0, 3, 3, 3], delta_f = 1\<rparr>)"
    by (simp add: from_numpy_arrays_def resample_trimmed_def trimmed bins py_index_def py_int_def
        np_assign_from_def py_slice_start_def FrequencySeries_new_def Let_def eval_nat_numeral)
  then show ?thesis
    by (simp add: eval_nat_numeral)
qed

end
